theory Spec2Isabelle
  imports Complex_Main
begin

section \<open>Exceptions\<close>

text \<open>
  The Python exceptions that the modelled code raises or catches. A function that can
  raise returns \<open>py_error + 'a\<close>, with \<open>Inl\<close> for the exception.
  \<open>Timeout\<close> is \<open>requests.Timeout\<close>, \<open>RequestException\<close> every other
  \<open>requests.RequestException\<close>; \<open>IntegrityError\<close> is the unique-constraint violation
  of the store and \<open>OperationalError\<close> every other failure of a database round trip.
\<close>

datatype py_error =
    ValueError
  | AttributeError
  | OverflowError
  | Timeout
  | RequestException
  | IntegrityError
  | OperationalError
  | ParserError

section \<open>Dates and times (datetime.date, datetime.time, datetime.datetime)\<close>

text \<open>
  A \<open>date\<close> is its proleptic Gregorian ordinal (\<open>date.toordinal()\<close>): 1 is 0001-01-01
  (\<open>date.min\<close>), 3652059 is 9999-12-31 (\<open>date.max\<close>). \<open>date.weekday()\<close> is
  \<open>(ordinal + 6) % 7\<close>, Monday being 0. Subtracting a \<open>timedelta\<close> of whole days
  raises OverflowError when the result leaves the range of \<open>date\<close>.
\<close>

type_synonym date = nat

definition date_min :: date where
  "date_min = 1"

definition date_max :: date where
  "date_max = 3652059"

definition valid_date :: "date \<Rightarrow> bool" where
  "valid_date d = (date_min \<le> d \<and> d \<le> date_max)"

definition weekday :: "date \<Rightarrow> nat" where
  "weekday d = (d + 6) mod 7"

definition date_sub_days :: "date \<Rightarrow> int \<Rightarrow> py_error + date" where
  "date_sub_days d n =
     (let r = int d - n
      in if r < int date_min \<or> int date_max < r then Inl OverflowError else Inr (nat r))"

record pytime =
  hour :: nat
  minute :: nat
  second :: nat
  microsecond :: nat

record datetime =
  date_part :: date
  time_part :: pytime

text \<open>\<open>time.__lt__\<close> on naive times: the order of (hour, minute, second, microsecond).\<close>

definition time_lt :: "pytime \<Rightarrow> pytime \<Rightarrow> bool" where
  "time_lt a b =
     (hour a < hour b \<or>
      (hour a = hour b \<and>
        (minute a < minute b \<or>
         (minute a = minute b \<and>
           (second a < second b \<or>
            (second a = second b \<and> microsecond a < microsecond b))))))"

definition valid_time :: "pytime \<Rightarrow> bool" where
  "valid_time t = (hour t < 24 \<and> minute t < 60 \<and> second t < 60 \<and> microsecond t < 1000000)"

definition valid_datetime :: "datetime \<Rightarrow> bool" where
  "valid_datetime r = (valid_date (date_part r) \<and> valid_time (time_part r))"

section \<open>PDFExtractor.get_pdf_date\<close>

definition cutoff_time :: pytime where
  "cutoff_time = \<lparr>hour = 17, minute = 30, second = 0, microsecond = 0\<rparr>"

text \<open>
  Step 2 of \<open>get_pdf_date\<close>, the loop
  \<^verbatim>\<open>while candidate_date.weekday() >= 5: candidate_date -= timedelta(days=1)\<close>.
\<close>

function back_to_business_day :: "date \<Rightarrow> py_error + date" where
  "back_to_business_day candidate_date =
     (if weekday candidate_date \<ge> 5
      then (case date_sub_days candidate_date 1 of
              Inl e \<Rightarrow> Inl e
            | Inr d \<Rightarrow> back_to_business_day d)
      else Inr candidate_date)"
  by pat_completeness auto
termination
  by (relation "measure (\<lambda>d. d)")
     (auto simp: date_sub_days_def date_min_def Let_def split: if_splits)

declare back_to_business_day.simps [simp del]

text \<open>
  \<open>get_pdf_date now reference_date\<close>: \<open>now\<close> is what \<open>datetime.now()\<close> returns, read only
  when \<open>reference_date\<close> is None.
\<close>

definition get_pdf_date :: "datetime \<Rightarrow> datetime option \<Rightarrow> py_error + date" where
  "get_pdf_date now reference_date =
     (let reference = (case reference_date of None \<Rightarrow> now | Some r \<Rightarrow> r);
          current_date = date_part reference;
          current_time = time_part reference
      in case (if time_lt current_time cutoff_time
               then date_sub_days current_date 1
               else Inr current_date) of
           Inl e \<Rightarrow> Inl e
         | Inr candidate_date \<Rightarrow> back_to_business_day candidate_date)"

section \<open>WebhookManager.send_webhook\<close>

text \<open>
  One \<open>requests.post\<close> followed by \<open>raise_for_status\<close> has three outcomes: a 2xx
  response, \<open>requests.Timeout\<close>, or another \<open>requests.RequestException\<close> (connection
  errors, and the HTTPError that \<open>raise_for_status\<close> raises for a 4xx/5xx status).
  The network is a function from the URL, the payload and the number of POSTs made so
  far to the outcome of the next POST.
\<close>

datatype post_outcome = Delivered | TimedOut | Refused

type_synonym payload = string

type_synonym network = "string \<Rightarrow> payload \<Rightarrow> nat \<Rightarrow> post_outcome"

text \<open>
  The observable trace of the dispatcher: the URLs POSTed to, in order, and the
  \<open>wait_time\<close> values computed for \<open>asyncio.sleep\<close> (the coroutine it returns is never
  awaited, so no time passes; only the value is recorded).
\<close>

record net =
  posts :: "string list"
  waits :: "nat list"

definition after_attempt :: "int \<Rightarrow> int \<Rightarrow> net \<Rightarrow> net" where
  "after_attempt max_retries attempt n =
     (if attempt < max_retries then n\<lparr>waits := waits n @ [2 ^ nat attempt]\<rparr> else n)"

text \<open>The loop \<^verbatim>\<open>for attempt in range(1, self.max_retries + 1)\<close>, from \<open>attempt\<close> on.\<close>

function send_attempts ::
  "network \<Rightarrow> int \<Rightarrow> string \<Rightarrow> payload \<Rightarrow> int \<Rightarrow> net \<Rightarrow> bool \<times> net" where
  "send_attempts http max_retries url pl attempt n =
     (if attempt \<le> max_retries
      then (let n1 = n\<lparr>posts := posts n @ [url]\<rparr>
            in case http url pl (length (posts n)) of
                 Delivered \<Rightarrow> (True, n1)
               | TimedOut \<Rightarrow>
                   if attempt = max_retries then (False, n1)
                   else send_attempts http max_retries url pl (attempt + 1)
                          (after_attempt max_retries attempt n1)
               | Refused \<Rightarrow>
                   if attempt = max_retries then (False, n1)
                   else send_attempts http max_retries url pl (attempt + 1)
                          (after_attempt max_retries attempt n1))
      else (False, n))"
  by pat_completeness auto
termination
  by (relation "measure (\<lambda>(http, max_retries, url, pl, attempt, n). nat (max_retries + 1 - attempt))")
     auto

declare send_attempts.simps [simp del]

definition send_webhook :: "network \<Rightarrow> int \<Rightarrow> string \<Rightarrow> payload \<Rightarrow> net \<Rightarrow> bool \<times> net" where
  "send_webhook http max_retries url pl n = send_attempts http max_retries url pl 1 n"

section \<open>Strings (str)\<close>

text \<open>
  A \<open>str\<close> is the list of its code points, each a natural number (U+0000 to U+10FFFF
  in the interpreter; the functions below are total on all numbers). \<open>lit\<close> writes a
  string of the code points below U+0100 from its characters.

  \<open>is_space\<close> is \<open>str.isspace\<close> on one code point (the interpreter's
  \<open>Py_UNICODE_ISSPACE\<close>), \<open>strip\<close> is \<open>str.strip()\<close>, and \<open>replace old new\<close> is
  \<open>str.replace\<close> for a pattern of one code point.
\<close>

type_synonym codepoint = nat

type_synonym pystr = "codepoint list"

definition lit :: "string \<Rightarrow> pystr" where
  "lit s = map of_char s"

definition is_space :: "codepoint \<Rightarrow> bool" where
  "is_space c =
     (c \<in> set [0x09, 0x0A, 0x0B, 0x0C, 0x0D, 0x1C, 0x1D, 0x1E, 0x1F, 0x20, 0x85, 0xA0,
               0x1680, 0x2000, 0x2001, 0x2002, 0x2003, 0x2004, 0x2005, 0x2006, 0x2007,
               0x2008, 0x2009, 0x200A, 0x2028, 0x2029, 0x202F, 0x205F, 0x3000])"

definition strip :: "pystr \<Rightarrow> pystr" where
  "strip s = rev (dropWhile is_space (rev (dropWhile is_space s)))"

definition replace :: "codepoint \<Rightarrow> pystr \<Rightarrow> pystr \<Rightarrow> pystr" where
  "replace old new s = concat (map (\<lambda>c. if c = old then new else [c]) s)"

text \<open>
  The code points with a decimal digit value (\<open>Py_UNICODE_TODECIMAL\<close>, Unicode 14.0):
  they come in runs of ten, listed by the code point of their zero.
\<close>

definition decimal_zeros :: "codepoint list" where
  "decimal_zeros =
     [48, 1632, 1776, 1984, 2406, 2534, 2662, 2790, 2918, 3046, 3174, 3302, 3430, 3558,
      3664, 3792, 3872, 4160, 4240, 6112, 6160, 6470, 6608, 6784, 6800, 6992, 7088, 7232,
      7248, 42528, 43216, 43264, 43472, 43504, 43600, 44016, 65296, 66720, 68912, 69734,
      69872, 69942, 70096, 70384, 70736, 70864, 71248, 71360, 71472, 71904, 72016, 72784,
      73040, 73120, 92768, 92864, 93008, 120782, 120792, 120802, 120812, 120822, 123200,
      123632, 125264, 130032]"

definition to_decimal :: "codepoint \<Rightarrow> nat option" where
  "to_decimal c = map_option (\<lambda>z. c - z) (find (\<lambda>z. z \<le> c \<and> c < z + 10) decimal_zeros)"

text \<open>
  \<open>float(s)\<close> and \<open>int(s)\<close> first rewrite a string that is not all ASCII
  (\<open>_PyUnicode_TransformDecimalAndSpaceToASCII\<close>): a code point below 127 is kept, white
  space becomes a space, a decimal digit its ASCII digit, and at any other code point
  the text is cut after a question mark put in its place.
\<close>

fun transform_decimal_and_space :: "pystr \<Rightarrow> pystr" where
  "transform_decimal_and_space [] = []"
| "transform_decimal_and_space (c # cs) =
     (if c < 127 then c # transform_decimal_and_space cs
      else if is_space c then 0x20 # transform_decimal_and_space cs
      else case to_decimal c of
             None \<Rightarrow> [0x3F]
           | Some d \<Rightarrow> (0x30 + d) # transform_decimal_and_space cs)"

definition to_ascii :: "pystr \<Rightarrow> pystr" where
  "to_ascii s = (if list_all (\<lambda>c. c < 128) s then s else transform_decimal_and_space s)"

text \<open>The C predicates on the rewritten text: \<open>Py_ISSPACE\<close>, \<open>Py_ISDIGIT\<close>, \<open>Py_TOLOWER\<close>.\<close>

definition c_isspace :: "codepoint \<Rightarrow> bool" where
  "c_isspace c = (c \<in> set [0x09, 0x0A, 0x0B, 0x0C, 0x0D, 0x20])"

definition is_digit :: "codepoint \<Rightarrow> bool" where
  "is_digit c = (48 \<le> c \<and> c \<le> 57)"

definition digit_value :: "codepoint \<Rightarrow> nat" where
  "digit_value c = c - 48"

definition digits_value :: "pystr \<Rightarrow> nat" where
  "digits_value ds = foldl (\<lambda>a c. 10 * a + digit_value c) 0 ds"

definition lower :: "codepoint \<Rightarrow> codepoint" where
  "lower c = (if 65 \<le> c \<and> c \<le> 90 then c + 32 else c)"

section \<open>Floating point numbers (float)\<close>

text \<open>
  A \<open>float\<close> is a binary64 value: a finite number, given by the rational it is exactly
  (\<open>Finite 0\<close> is 0.0 and \<open>NegZero\<close> is -0.0), an infinity with its sign (True for
  negative), or NaN.

  \<open>round_binary64 neg p q\<close> is the float nearest to the fraction p / q (q positive)
  with the sign \<open>neg\<close>, ties going to the even significand: the correctly rounded
  result of the interpreter's string conversion. A value of 2^1024 or more after
  rounding is an infinity, a value that rounds to nothing a zero.
\<close>

datatype pyfloat = Finite rat | NegZero | Infinite bool | NaN

function bit_length :: "nat \<Rightarrow> nat" where
  "bit_length n = (if n = 0 then 0 else Suc (bit_length (n div 2)))"
  by pat_completeness auto
termination
  by (relation "measure (\<lambda>n. n)") auto

declare bit_length.simps [simp del]

definition pow2 :: "int \<Rightarrow> rat" where
  "pow2 k = (if 0 \<le> k then 2 ^ nat k else 1 / 2 ^ nat (- k))"

text \<open>The integer nearest to n / d, ties to even.\<close>

definition round_half_even :: "nat \<Rightarrow> nat \<Rightarrow> nat" where
  "round_half_even n d =
     (let f = n div d; r = n mod d
      in if 2 * r < d then f
         else if d < 2 * r then f + 1
         else if even f then f else f + 1)"

text \<open>The exponent e with 2^e \<le> p / q < 2^(e + 1), for positive p and q.\<close>

definition binary_exponent :: "nat \<Rightarrow> nat \<Rightarrow> int" where
  "binary_exponent p q =
     (let k = int (bit_length p) - int (bit_length q)
      in if (if 0 \<le> k then q * 2 ^ nat k \<le> p else q \<le> p * 2 ^ nat (- k)) then k else k - 1)"

definition round_binary64 :: "bool \<Rightarrow> nat \<Rightarrow> nat \<Rightarrow> pyfloat" where
  "round_binary64 neg p q =
     (if p = 0 then (if neg then NegZero else Finite 0)
      else
        let shift = max (binary_exponent p q) (- 1022) - 52;
            n = (if 0 \<le> shift then round_half_even p (q * 2 ^ nat shift)
                 else round_half_even (p * 2 ^ nat (- shift)) q);
            v = of_nat n * pow2 shift
        in if pow2 1024 \<le> v then Infinite neg
           else if n = 0 then (if neg then NegZero else Finite 0)
           else Finite (if neg then - v else v))"

section \<open>float(s) and int(s)\<close>

text \<open>
  Underscores in a numeric literal (\<open>_Py_string_to_number_with_underscores\<close>): one is
  allowed only after a digit and only before a digit; they are removed. \<open>prev\<close> is the
  previous character, NUL at the start.
\<close>

fun underscores_ok :: "codepoint \<Rightarrow> pystr \<Rightarrow> bool" where
  "underscores_ok prev [] = (prev \<noteq> 0x5F)"
| "underscores_ok prev (p # ps) =
     (if p = 0x5F then is_digit prev \<and> underscores_ok p ps
      else if prev = 0x5F then is_digit p \<and> underscores_ok p ps
      else underscores_ok p ps)"

definition without_underscores :: "pystr \<Rightarrow> py_error + pystr" where
  "without_underscores s =
     (if 0x5F \<notin> set s then Inr s
      else if underscores_ok 0 s then Inr (filter (\<lambda>c. c \<noteq> 0x5F) s)
      else Inl ValueError)"

definition split_sign :: "pystr \<Rightarrow> bool \<times> pystr" where
  "split_sign s =
     (case s of
        [] \<Rightarrow> (False, [])
      | c # cs \<Rightarrow>
          if c = 0x2D then (True, cs)
          else if c = 0x2B then (False, cs)
          else (False, s))"

text \<open>The exponent part: nothing, or e or E, an optional sign and digits.\<close>

definition parse_exponent :: "pystr \<Rightarrow> py_error + int" where
  "parse_exponent s =
     (case s of
        [] \<Rightarrow> Inr 0
      | c # cs \<Rightarrow>
          if c = 0x65 \<or> c = 0x45
          then (let (neg, ds) = split_sign cs
                in if ds \<noteq> [] \<and> list_all is_digit ds
                   then Inr (if neg then - int (digits_value ds) else int (digits_value ds))
                   else Inl ValueError)
          else Inl ValueError)"

text \<open>
  Digits with an optional fraction and an optional exponent, at least one digit before
  or after the point: the number is \<open>digits * 10 ^ exponent\<close>, rounded.
\<close>

definition parse_decimal :: "bool \<Rightarrow> pystr \<Rightarrow> py_error + pyfloat" where
  "parse_decimal neg s =
     (let ip = takeWhile is_digit s;
          r1 = dropWhile is_digit s;
          dot = (r1 \<noteq> [] \<and> hd r1 = 0x2E);
          fp = (if dot then takeWhile is_digit (tl r1) else []);
          r2 = (if dot then dropWhile is_digit (tl r1) else r1)
      in if ip = [] \<and> fp = [] then Inl ValueError
         else case parse_exponent r2 of
                Inl e \<Rightarrow> Inl e
              | Inr e \<Rightarrow>
                  (let m = digits_value (ip @ fp); x = e - int (length fp)
                   in Inr (if 0 \<le> x then round_binary64 neg (m * 10 ^ nat x) 1
                           else round_binary64 neg m (10 ^ nat (- x)))))"

text \<open>
  \<open>float(s)\<close>: the text is made ASCII, its underscores are checked and removed, the
  white space around it is dropped; what is left is an optional sign, then \<open>inf\<close>,
  \<open>infinity\<close> or \<open>nan\<close> in any case, or a decimal number. Anything else raises
  ValueError.
\<close>

definition float_from_string_inner :: "pystr \<Rightarrow> py_error + pyfloat" where
  "float_from_string_inner s =
     (let t = rev (dropWhile c_isspace (rev (dropWhile c_isspace s)));
          (neg, r) = split_sign t;
          l = map lower r
      in if l = lit ''inf'' \<or> l = lit ''infinity'' then Inr (Infinite neg)
         else if l = lit ''nan'' then Inr NaN
         else parse_decimal neg r)"

definition py_float :: "pystr \<Rightarrow> py_error + pyfloat" where
  "py_float s =
     (case without_underscores (to_ascii s) of
        Inl e \<Rightarrow> Inl e
      | Inr t \<Rightarrow> float_from_string_inner t)"

text \<open>
  \<open>int(s)\<close> in base 10: the text is made ASCII; after white space and an optional sign
  come digits, single underscores allowed between them, then white space to the end.
  ValueError otherwise, also when there are more digits than
  \<open>sys.int_max_str_digits\<close> (4300 unless configured).
\<close>

definition int_max_str_digits :: nat where
  "int_max_str_digits = 4300"

fun single_underscores :: "codepoint \<Rightarrow> pystr \<Rightarrow> bool" where
  "single_underscores prev [] = (prev \<noteq> 0x5F)"
| "single_underscores prev (c # cs) =
     (if c = 0x5F \<and> prev = 0x5F then False else single_underscores c cs)"

definition py_int :: "pystr \<Rightarrow> py_error + int" where
  "py_int s =
     (let (neg, r) = split_sign (dropWhile c_isspace (to_ascii s));
          body = takeWhile (\<lambda>c. is_digit c \<or> c = 0x5F) r;
          rest = dropWhile (\<lambda>c. is_digit c \<or> c = 0x5F) r;
          ds = filter is_digit body
      in if r \<noteq> [] \<and> hd r = 0x5F then Inl ValueError
         else if \<not> single_underscores 0 body then Inl ValueError
         else if int_max_str_digits < length ds then Inl ValueError
         else if body = [] then Inl ValueError
         else if dropWhile c_isspace rest \<noteq> [] then Inl ValueError
         else Inr (if neg then - int (digits_value ds) else int (digits_value ds)))"

section \<open>BRVMScraper.parse_actions: parse_float, parse_int\<close>

text \<open>
  The text handed to \<open>float\<close> and to \<open>int\<close>: spaces removed, the comma replaced by a
  point (for \<open>float\<close>), no-break spaces (U+00A0) and narrow no-break spaces (U+202F)
  removed, then stripped.
\<close>

definition float_cleaned :: "pystr \<Rightarrow> pystr" where
  "float_cleaned v =
     strip (replace 0x202F [] (replace 0xA0 [] (replace 0x2C (lit ''.'') (replace 0x20 [] v))))"

definition int_cleaned :: "pystr \<Rightarrow> pystr" where
  "int_cleaned v = strip (replace 0x202F [] (replace 0xA0 [] (replace 0x20 [] v)))"

text \<open>The body of the \<open>try\<close> of \<open>parse_float\<close>, then its \<open>except (ValueError, AttributeError)\<close>.\<close>

definition parse_float_body :: "pystr \<Rightarrow> py_error + pyfloat option" where
  "parse_float_body v =
     (if v = [] \<or> strip v \<in> set [lit ''-'', lit ''0'', lit '''']
      then Inr None
      else if float_cleaned v = [] then Inr None
      else case py_float (float_cleaned v) of
             Inl e \<Rightarrow> Inl e
           | Inr x \<Rightarrow> Inr (Some x))"

definition parse_float :: "pystr \<Rightarrow> py_error + pyfloat option" where
  "parse_float v =
     (case parse_float_body v of
        Inl e \<Rightarrow> if e = ValueError \<or> e = AttributeError then Inr None else Inl e
      | Inr r \<Rightarrow> Inr r)"

definition parse_int_body :: "pystr \<Rightarrow> py_error + int" where
  "parse_int_body v =
     (if v = [] \<or> strip v \<in> set [lit ''-'', lit ''0'', lit '''']
      then Inr 0
      else if int_cleaned v = [] then Inr 0
      else py_int (int_cleaned v))"

definition parse_int :: "pystr \<Rightarrow> py_error + int" where
  "parse_int v =
     (case parse_int_body v of
        Inl e \<Rightarrow> if e = ValueError \<or> e = AttributeError then Inr 0 else Inl e
      | Inr r \<Rightarrow> Inr r)"

text \<open>
  A character that can stand in the ASCII text of a numeric literal of \<open>float\<close>: a digit,
  a sign, the point, the underscore, the exponent marker, or a letter of \<open>inf\<close>,
  \<open>infinity\<close>, \<open>nan\<close>; and one that can stand in a literal of \<open>int\<close>.
\<close>

definition float_char :: "codepoint \<Rightarrow> bool" where
  "float_char c = (is_digit c \<or> c \<in> set (lit ''+-._eE'') \<or> lower c \<in> set (lit ''infatyn''))"

definition int_char :: "codepoint \<Rightarrow> bool" where
  "int_char c = (is_digit c \<or> c \<in> set (lit ''+-_''))"

section \<open>The document tree (BeautifulSoup)\<close>

text \<open>
  The tree that \<open>BeautifulSoup(html_content, 'html.parser')\<close> builds: a tag with its
  name, its \<open>id\<close> attribute, its list of classes and its children, or a string. The
  parser itself is a parameter of the model, \<open>html_parser\<close>, from the markup to the tree
  (or to an exception).

  \<open>descendants\<close> lists the nodes below a node in document order; \<open>bs_find_all\<close> and
  \<open>bs_find\<close> are \<open>find_all\<close> and \<open>find\<close>; \<open>get_text\<close> is \<open>get_text(strip=True)\<close>: the
  strings below the node, each stripped, the empty ones dropped, joined.
\<close>

datatype node =
    Tag pystr "pystr option" "pystr list" "node list"
  | NavigableString pystr

fun descendants :: "node \<Rightarrow> node list" where
  "descendants (NavigableString s) = []"
| "descendants (Tag name ident classes children) =
     concat (map (\<lambda>c. c # descendants c) children)"

fun is_tag :: "pystr \<Rightarrow> node \<Rightarrow> bool" where
  "is_tag name (Tag n ident classes children) = (n = name)"
| "is_tag name (NavigableString s) = False"

fun has_id :: "pystr \<Rightarrow> node \<Rightarrow> bool" where
  "has_id v (Tag n ident classes children) = (ident = Some v)"
| "has_id v (NavigableString s) = False"

fun has_class :: "pystr list \<Rightarrow> node \<Rightarrow> bool" where
  "has_class wanted (Tag n ident classes children) = (\<exists>c \<in> set classes. c \<in> set wanted)"
| "has_class wanted (NavigableString s) = False"

definition bs_find_all :: "(node \<Rightarrow> bool) \<Rightarrow> node \<Rightarrow> node list" where
  "bs_find_all p n = filter p (descendants n)"

definition bs_find :: "(node \<Rightarrow> bool) \<Rightarrow> node \<Rightarrow> node option" where
  "bs_find p n = (case bs_find_all p n of [] \<Rightarrow> None | x # xs \<Rightarrow> Some x)"

fun strings :: "node \<Rightarrow> pystr list" where
  "strings (NavigableString s) = [s]"
| "strings (Tag name ident classes children) = concat (map strings children)"

definition get_text :: "node \<Rightarrow> pystr" where
  "get_text n = concat (filter (\<lambda>s. s \<noteq> []) (map strip (strings n)))"

section \<open>BRVMScraper.parse_actions\<close>

text \<open>The dictionary \<open>action_dict\<close> of one row, which is also a row of the table \<open>actions\<close>.\<close>

record action =
  symbole :: pystr
  nom :: pystr
  volume :: int
  cours_veille :: "pyfloat option"
  cours_ouverture :: "pyfloat option"
  cours_cloture :: "pyfloat option"
  variation :: "pyfloat option"

definition and_then :: "'e + 'a \<Rightarrow> ('a \<Rightarrow> 'e + 'b) \<Rightarrow> 'e + 'b" where
  "and_then r f = (case r of Inl e \<Rightarrow> Inl e | Inr x \<Rightarrow> f x)"

definition parse_variation_body :: "node \<Rightarrow> py_error + pyfloat option" where
  "parse_variation_body td_element =
     (let text = (case bs_find (\<lambda>n. is_tag (lit ''span'') n
                                  \<and> has_class [lit ''text-good'', lit ''text-bad'', lit ''text-nul''] n)
                        td_element of
                    Some span_tag \<Rightarrow> get_text span_tag
                  | None \<Rightarrow> get_text td_element)
      in if text = [] \<or> text = lit ''-'' then Inr None
         else if float_cleaned text = [] then Inr None
         else case py_float (float_cleaned text) of
                Inl e \<Rightarrow> Inl e
              | Inr x \<Rightarrow> Inr (Some x))"

definition parse_variation :: "node \<Rightarrow> py_error + pyfloat option" where
  "parse_variation td_element =
     (case parse_variation_body td_element of
        Inl e \<Rightarrow> if e = ValueError \<or> e = AttributeError then Inr None else Inl e
      | Inr r \<Rightarrow> Inr r)"

text \<open>
  The body of the inner \<open>try\<close> for one row with at least 7 cells: None is
  \<open>continue\<close> (empty symbol), Some the dictionary appended to \<open>actions_data\<close>.
\<close>

definition row_body :: "node list \<Rightarrow> py_error + action option" where
  "row_body cols =
     (let symbole = get_text (cols ! 0);
          nom = get_text (cols ! 1)
      in if symbole = [] then Inr None
         else
           and_then (parse_int (get_text (cols ! 2))) (\<lambda>volume.
           and_then (parse_float (get_text (cols ! 3))) (\<lambda>cours_veille.
           and_then (parse_float (get_text (cols ! 4))) (\<lambda>cours_ouverture.
           and_then (parse_float (get_text (cols ! 5))) (\<lambda>cours_cloture.
           and_then (parse_variation (cols ! 6)) (\<lambda>variation.
           Inr (Some \<lparr>symbole = symbole, nom = nom, volume = volume,
                      cours_veille = cours_veille, cours_ouverture = cours_ouverture,
                      cours_cloture = cours_cloture, variation = variation\<rparr>)))))))"

text \<open>
  One turn of the loop over the rows: a row with fewer than 7 cells is skipped, and
  \<open>except Exception: continue\<close> skips the row on any exception of the body.
\<close>

definition parse_row :: "node \<Rightarrow> action option" where
  "parse_row row =
     (let cols = bs_find_all (is_tag (lit ''td'')) row
      in if length cols < 7 then None
         else case row_body cols of Inl e \<Rightarrow> None | Inr r \<Rightarrow> r)"

text \<open>The rows of the table that parse_actions reads (None: no table).\<close>

definition data_rows :: "node \<Rightarrow> node list option" where
  "data_rows soup =
     (let main_section =
            (case bs_find (\<lambda>n. is_tag (lit ''section'') n \<and> has_id (lit ''block-system-main'') n) soup of
               None \<Rightarrow> soup
             | Some s \<Rightarrow> s);
          table =
            (case bs_find (\<lambda>n. is_tag (lit ''table'') n \<and> has_class [lit ''table-striped''] n)
                    main_section of
               None \<Rightarrow> bs_find (is_tag (lit ''table'')) main_section
             | Some t \<Rightarrow> Some t)
      in case table of
           None \<Rightarrow> None
         | Some t \<Rightarrow>
             (case bs_find (is_tag (lit ''tbody'')) t of
                Some tbody \<Rightarrow> Some (bs_find_all (is_tag (lit ''tr'')) tbody)
              | None \<Rightarrow>
                  Some (filter (\<lambda>row. bs_find (is_tag (lit ''th'')) row = None)
                          (bs_find_all (is_tag (lit ''tr'')) t))))"

text \<open>The body of the outer \<open>try\<close> of parse_actions, then its \<open>except Exception: return []\<close>.\<close>

definition parse_actions_body :: "(pystr \<Rightarrow> py_error + node) \<Rightarrow> pystr \<Rightarrow> py_error + action list" where
  "parse_actions_body html_parser html_content =
     (case html_parser html_content of
        Inl e \<Rightarrow> Inl e
      | Inr soup \<Rightarrow>
          (case data_rows soup of
             None \<Rightarrow> Inr []
           | Some rows \<Rightarrow> if rows = [] then Inr [] else Inr (List.map_filter parse_row rows)))"

definition parse_actions :: "(pystr \<Rightarrow> py_error + node) \<Rightarrow> pystr \<Rightarrow> py_error + action list" where
  "parse_actions html_parser html_content =
     (case parse_actions_body html_parser html_content of
        Inl e \<Rightarrow> Inr []
      | Inr actions_data \<Rightarrow> Inr actions_data)"

section \<open>Example inputs\<close>

text \<open>
  0001-01-01 10:00 (a Monday, the first day a \<open>date\<close> can hold) and Sunday
  2026-11-08 09:00 (ordinal 739928).
\<close>

definition year1_morning :: datetime where
  "year1_morning =
     \<lparr>date_part = 1, time_part = \<lparr>hour = 10, minute = 0, second = 0, microsecond = 0\<rparr>\<rparr>"

definition sunday_morning :: datetime where
  "sunday_morning =
     \<lparr>date_part = 739928, time_part = \<lparr>hour = 9, minute = 0, second = 0, microsecond = 0\<rparr>\<rparr>"

text \<open>
  A page as the parser reads it: the main section with the striped table, whose body has
  one well-formed row (symbol ABCD, volume 12 500, closing price 1 020,50, the
  variation inside a coloured span) and one row of 4 cells. \<open>lowercase_row\<close> is a
  well-formed row whose symbol cell reads abcd, \<open>blank_row\<close> one whose symbol cell is
  blank.
\<close>

definition td :: "pystr \<Rightarrow> node" where
  "td s = Tag (lit ''td'') None [] [NavigableString s]"

definition good_row :: node where
  "good_row =
     Tag (lit ''tr'') None []
       [td (lit ''ABCD''), td (lit '' Societe ABCD ''), td (lit ''12 500''), td (lit ''1 000''), td (lit ''1 010''),
        td (lit ''1 020,50''),
        Tag (lit ''td'') None [] [Tag (lit ''span'') None [lit ''text-good''] [NavigableString (lit ''2,5'')]]]"

definition short_row :: node where
  "short_row = Tag (lit ''tr'') None [] [td (lit ''EFGH''), td (lit ''Societe EFGH''), td (lit ''10''), td (lit ''500'')]"

definition lowercase_row :: node where
  "lowercase_row =
     Tag (lit ''tr'') None []
       [td (lit ''abcd''), td (lit ''Societe''), td (lit ''1''), td (lit ''2''), td (lit ''3''), td (lit ''4''), td (lit ''5'')]"

definition blank_row :: node where
  "blank_row =
     Tag (lit ''tr'') None []
       [td (lit '' ''), td (lit ''Societe''), td (lit ''1''), td (lit ''2''), td (lit ''3''), td (lit ''4''), td (lit ''5'')]"

definition page_of :: "node list \<Rightarrow> node" where
  "page_of rows =
     Tag (lit ''[document]'') None []
       [Tag (lit ''section'') (Some (lit ''block-system-main'')) []
          [Tag (lit ''table'') None [lit ''table'', lit ''table-striped'']
             [Tag (lit ''tbody'') None [] rows]]]"

definition abcd :: action where
  "abcd =
     \<lparr>symbole = lit ''ABCD'', nom = lit ''Societe ABCD'', volume = 12500,
      cours_veille = Some (Finite 1000), cours_ouverture = Some (Finite 1010),
      cours_cloture = Some (Finite (2041 / 2)), variation = Some (Finite (5 / 2))\<rparr>"

section \<open>Properties of get_pdf_date\<close>

lemma weekday_less_7: "weekday d < 7"
  by (simp add: weekday_def)

lemma back_to_business_day_weekday:
  "weekday d \<le> 4 \<Longrightarrow> back_to_business_day d = Inr d"
  by (subst back_to_business_day.simps) simp

lemma weekday_Suc: "weekday (Suc d) = (if weekday d = 6 then 0 else Suc (weekday d))"
proof -
  have "weekday (Suc d) = Suc (d + 6) mod 7"
    by (simp add: weekday_def)
  also have "\<dots> = (if Suc ((d + 6) mod 7) = 7 then 0 else Suc ((d + 6) mod 7))"
    by (rule mod_Suc)
  finally show ?thesis
    by (simp add: weekday_def)
qed

lemma weekday_0: "weekday 0 = 6"
  by (simp add: weekday_def)

lemma date_sub_days_Suc:
  "0 < k \<Longrightarrow> Suc k \<le> date_max \<Longrightarrow> date_sub_days (Suc k) 1 = Inr k"
  by (simp add: date_sub_days_def date_min_def Let_def)

lemma back_to_business_day_spec:
  assumes "valid_date c"
  shows "\<exists>d. back_to_business_day c = Inr d \<and> d \<le> c \<and> weekday d \<le> 4
             \<and> (\<forall>x. d < x \<and> x \<le> c \<longrightarrow> 5 \<le> weekday x)
             \<and> (weekday c \<le> 4 \<longrightarrow> d = c)"
proof -
  have w: "weekday c < 7" by (rule weekday_less_7)
  have cmax: "c \<le> date_max" using assms by (simp add: valid_date_def)
  consider (wd) "weekday c \<le> 4" | (sat) "weekday c = 5" | (sun) "weekday c = 6"
    using w by linarith
  then show ?thesis
  proof cases
    case wd
    then have "back_to_business_day c = Inr c"
      by (rule back_to_business_day_weekday)
    with wd show ?thesis by auto
  next
    case sat
    then obtain k where k: "c = Suc k"
      using weekday_0 by (cases c) auto
    have wk: "weekday k = 4"
      using sat unfolding k weekday_Suc by (simp split: if_splits)
    have k0: "0 < k" using wk weekday_0 by (cases k) auto
    have s: "date_sub_days c 1 = Inr k"
      unfolding k using k0 cmax k by (intro date_sub_days_Suc) auto
    have b: "back_to_business_day c = Inr k"
      using sat s wk back_to_business_day_weekday[of k]
      by (subst back_to_business_day.simps) simp
    have "\<forall>x. k < x \<and> x \<le> c \<longrightarrow> 5 \<le> weekday x"
    proof (intro allI impI)
      fix x assume "k < x \<and> x \<le> c"
      then have "x = c" using k by linarith
      then show "5 \<le> weekday x" using sat by simp
    qed
    with b wk sat k show ?thesis by auto
  next
    case sun
    have c0: "c \<noteq> 0" using assms by (simp add: valid_date_def date_min_def)
    then obtain j where j: "c = Suc j" by (cases c) auto
    have wj: "weekday j = 5"
      using sun unfolding j weekday_Suc by (simp split: if_splits)
    then obtain k where k: "j = Suc k"
      using weekday_0 by (cases j) auto
    have wk: "weekday k = 4"
      using wj unfolding k weekday_Suc by (simp split: if_splits)
    have k0: "0 < k" using wk weekday_0 by (cases k) auto
    have s1: "date_sub_days c 1 = Inr j"
      unfolding j using k cmax j by (intro date_sub_days_Suc) auto
    have s2: "date_sub_days j 1 = Inr k"
      unfolding k using k0 cmax j k by (intro date_sub_days_Suc) auto
    have b2: "back_to_business_day j = Inr k"
      using wj s2 wk back_to_business_day_weekday[of k]
      by (subst back_to_business_day.simps) simp
    have b: "back_to_business_day c = Inr k"
      using sun s1 b2 by (subst back_to_business_day.simps) simp
    have "\<forall>x. k < x \<and> x \<le> c \<longrightarrow> 5 \<le> weekday x"
    proof (intro allI impI)
      fix x assume "k < x \<and> x \<le> c"
      then have "x = c \<or> x = j" using k j by linarith
      then show "5 \<le> weekday x" using sun wj by auto
    qed
    with b wk sun j k show ?thesis by auto
  qed
qed

text \<open>
  C1 (amended): for every reference instant (the argument, or \<open>datetime.now()\<close> when it
  is None) other than one on 0001-01-01 before 17:30:00, get_pdf_date returns a date
  \<open>d\<close> such that, \<open>c\<close> being the reference date minus one day when the time of day is
  before 17:30:00 and the reference date itself otherwise: \<open>d\<close> is not after \<open>c\<close>,
  \<open>d\<close> is a Monday-Friday weekday, and every day after \<open>d\<close> up to \<open>c\<close> is a Saturday
  or Sunday (the candidate is stepped back one day at a time exactly while it falls on
  a weekend). For a time of day of 17:30:00 or later on a weekday the result is the
  reference date itself.
\<close>

theorem get_pdf_date_resolves:
  assumes "r = (case reference_date of None \<Rightarrow> now | Some x \<Rightarrow> x)"
    and "valid_date (date_part r)"
    and "\<not> (date_part r = date_min \<and> time_lt (time_part r) cutoff_time)"
    and "c = (if time_lt (time_part r) cutoff_time then date_part r - 1 else date_part r)"
  shows "\<exists>d. get_pdf_date now reference_date = Inr d
             \<and> d \<le> c \<and> weekday d \<le> 4
             \<and> (\<forall>x. d < x \<and> x \<le> c \<longrightarrow> 5 \<le> weekday x)
             \<and> (\<not> time_lt (time_part r) cutoff_time \<and> weekday (date_part r) \<le> 4
                  \<longrightarrow> d = date_part r)"
proof -
  have vc: "valid_date c"
    using assms(2,3,4) by (auto simp: valid_date_def date_min_def)
  have cand: "(if time_lt (time_part r) cutoff_time
               then date_sub_days (date_part r) 1 else Inr (date_part r)) = Inr c"
    using assms(2,3,4)
    by (auto simp: date_sub_days_def valid_date_def date_min_def date_max_def Let_def)
  obtain d where d: "back_to_business_day c = Inr d" "d \<le> c" "weekday d \<le> 4"
      "\<forall>x. d < x \<and> x \<le> c \<longrightarrow> 5 \<le> weekday x" "weekday c \<le> 4 \<longrightarrow> d = c"
    using back_to_business_day_spec[OF vc] by blast
  have r: "(case reference_date of None \<Rightarrow> now | Some x \<Rightarrow> x) = r"
    using assms(1) by simp
  have g: "get_pdf_date now reference_date = Inr d"
    unfolding get_pdf_date_def Let_def r cand using d(1) by simp
  have p4: "\<not> time_lt (time_part r) cutoff_time \<and> weekday (date_part r) \<le> 4 \<longrightarrow> d = date_part r"
    using assms(4) d(5) by auto
  show ?thesis using g d(2,3,4) p4 by blast
qed

theorem get_pdf_date_resolves_witness:
  "valid_date (date_part sunday_morning)
   \<and> time_lt (time_part sunday_morning) cutoff_time
   \<and> get_pdf_date sunday_morning None = Inr 739926"
proof -
  have v: "valid_date (date_part sunday_morning)"
    by (simp add: sunday_morning_def valid_date_def date_min_def date_max_def)
  have t: "time_lt (time_part sunday_morning) cutoff_time"
    by (simp add: sunday_morning_def time_lt_def cutoff_time_def)
  have n: "\<not> (date_part sunday_morning = date_min \<and> time_lt (time_part sunday_morning) cutoff_time)"
    by (simp add: sunday_morning_def date_min_def)
  have c: "(739927::nat) = (if time_lt (time_part sunday_morning) cutoff_time
                            then date_part sunday_morning - 1 else date_part sunday_morning)"
    using t by (simp add: sunday_morning_def)
  obtain d where d: "get_pdf_date sunday_morning None = Inr d" "d \<le> 739927" "weekday d \<le> 4"
      "\<forall>x. d < x \<and> x \<le> 739927 \<longrightarrow> 5 \<le> weekday x"
    using get_pdf_date_resolves [where r = sunday_morning and reference_date = None
        and now = sunday_morning and c = 739927, OF _ v n c]
    by auto
  have "d \<noteq> 739927"
    using d(3) by (auto simp: weekday_def)
  moreover have "\<not> d < 739926"
  proof
    assume "d < 739926"
    then have "5 \<le> weekday 739926" using d(4) by simp
    then show False by (simp add: weekday_def)
  qed
  ultimately have "d = 739926" using d(2) by linarith
  then show ?thesis using v t d(1) by simp
qed

text \<open>
  The claim as stated, for every reference instant, fails on 0001-01-01 before 17:30:
  \<open>date(1, 1, 1) - timedelta(days=1)\<close> raises OverflowError.
\<close>

theorem get_pdf_date_date_min_counterexample:
  "valid_datetime year1_morning \<and>
   get_pdf_date year1_morning (Some year1_morning) = Inl OverflowError"
  by (simp add: get_pdf_date_def year1_morning_def valid_datetime_def valid_date_def valid_time_def
      date_min_def date_max_def time_lt_def cutoff_time_def date_sub_days_def Let_def)


section \<open>Properties of send_webhook\<close>

text \<open>
  C10: with a maximum retry count of 0 the loop \<open>range(1, 1)\<close> is empty: send_webhook
  makes no POST (the trace is unchanged) and returns False, for every URL, payload and
  network.
\<close>

theorem send_webhook_zero_retries:
  "send_webhook http 0 url pl n = (False, n)"
  unfolding send_webhook_def by (subst send_attempts.simps) simp

section \<open>Properties of parse_float and parse_int\<close>

lemma lit_simps [simp]: "lit [] = []" "lit (c # cs) = of_char c # lit cs"
  by (simp_all add: lit_def)

lemmas number_defs =
  parse_float_def parse_float_body_def parse_int_def parse_int_body_def float_cleaned_def
  int_cleaned_def strip_def replace_def is_space_def py_float_def py_int_def to_ascii_def
  float_from_string_inner_def c_isspace_def without_underscores_def split_sign_def
  parse_decimal_def parse_exponent_def is_digit_def digits_value_def digit_value_def
  lower_def int_max_str_digits_def Let_def

lemmas float_defs =
  round_binary64_def binary_exponent_def bit_length.simps round_half_even_def pow2_def

lemma without_underscores_error: "without_underscores s = Inl e \<Longrightarrow> e = ValueError"
  by (simp add: without_underscores_def split: if_splits)

lemma parse_exponent_error: "parse_exponent s = Inl e \<Longrightarrow> e = ValueError"
  by (auto simp: parse_exponent_def Let_def split: list.splits if_splits prod.splits)

lemma parse_decimal_error: "parse_decimal neg s = Inl e \<Longrightarrow> e = ValueError"
  by (auto simp: parse_decimal_def Let_def split: if_splits sum.splits dest: parse_exponent_error)

lemma float_from_string_inner_error: "float_from_string_inner s = Inl e \<Longrightarrow> e = ValueError"
  by (auto simp: float_from_string_inner_def Let_def split: prod.splits if_splits
      dest: parse_decimal_error)

lemma py_float_error: "py_float s = Inl e \<Longrightarrow> e = ValueError"
  by (auto simp: py_float_def split: sum.splits
      dest: without_underscores_error float_from_string_inner_error)

lemma py_int_error: "py_int s = Inl e \<Longrightarrow> e = ValueError"
  by (auto simp: py_int_def Let_def split: prod.splits if_splits)

lemma parse_float_body_error: "parse_float_body v = Inl e \<Longrightarrow> e = ValueError"
  by (auto simp: parse_float_body_def split: sum.splits if_splits dest: py_float_error)

lemma parse_int_body_error: "parse_int_body v = Inl e \<Longrightarrow> e = ValueError"
  by (auto simp: parse_int_body_def split: sum.splits if_splits dest: py_int_error)

lemma parse_float_total: "\<exists>r. parse_float v = Inr r"
proof (cases "parse_float_body v")
  case (Inl e)
  then have "e = ValueError" by (rule parse_float_body_error)
  with Inl show ?thesis by (simp add: parse_float_def)
next
  case (Inr r)
  then show ?thesis by (simp add: parse_float_def)
qed

lemma parse_int_total: "\<exists>n. parse_int v = Inr n"
proof (cases "parse_int_body v")
  case (Inl e)
  then have "e = ValueError" by (rule parse_int_body_error)
  with Inl show ?thesis by (simp add: parse_int_def)
next
  case (Inr r)
  then show ?thesis by (simp add: parse_int_def)
qed

lemma parse_float_placeholder:
  "strip v \<in> {lit ''-'', lit ''0'', lit ''''} \<Longrightarrow> parse_float v = Inr None"
  by (auto simp: parse_float_def parse_float_body_def)

lemma parse_int_placeholder:
  "strip v \<in> {lit ''-'', lit ''0'', lit ''''} \<Longrightarrow> parse_int v = Inr 0"
  by (auto simp: parse_int_def parse_int_body_def)

lemma parse_float_rejected:
  "py_float (float_cleaned v) = Inl e \<Longrightarrow> parse_float v = Inr None"
  by (frule py_float_error) (auto simp: parse_float_def parse_float_body_def)

lemma parse_int_rejected:
  "py_int (int_cleaned v) = Inl e \<Longrightarrow> parse_int v = Inr 0"
  by (frule py_int_error) (auto simp: parse_int_def parse_int_body_def)

lemma strip_Nil: "strip [] = []"
  by (simp add: strip_def)

lemma parse_float_accepted:
  assumes "strip v \<notin> {lit ''-'', lit ''0'', lit ''''}" "py_float (float_cleaned v) = Inr x"
  shows "parse_float v = Inr (Some x)"
proof -
  have v: "v \<noteq> []" using assms(1) by (auto simp: strip_Nil lit_simps)
  have "float_cleaned v \<noteq> []"
  proof
    assume "float_cleaned v = []"
    with assms(2) show False
      by (simp add: py_float_def to_ascii_def without_underscores_def
          float_from_string_inner_def split_sign_def parse_decimal_def)
  qed
  with v assms show ?thesis
    by (auto simp: parse_float_def parse_float_body_def)
qed

lemma parse_int_accepted:
  assumes "strip v \<notin> {lit ''-'', lit ''0'', lit ''''}" "py_int (int_cleaned v) = Inr n"
  shows "parse_int v = Inr n"
proof -
  have v: "v \<noteq> []" using assms(1) by (auto simp: strip_Nil lit_simps)
  have "int_cleaned v \<noteq> []"
  proof
    assume "int_cleaned v = []"
    with assms(2) show False
      by (simp add: py_int_def to_ascii_def split_sign_def)
  qed
  with v assms show ?thesis
    by (auto simp: parse_int_def parse_int_body_def)
qed

subsection \<open>The comma is read as the point\<close>

lemma replace_comma_idem:
  "replace 0x2C (lit ''.'') (replace 0x2C (lit ''.'') v) = replace 0x2C (lit ''.'') v"
  by (induction v) (auto simp: replace_def lit_simps)

lemma replace_space_comma:
  "replace 0x20 [] (replace 0x2C (lit ''.'') v) = replace 0x2C (lit ''.'') (replace 0x20 [] v)"
  by (induction v) (auto simp: replace_def lit_simps)

lemma float_cleaned_comma: "float_cleaned (replace 0x2C (lit ''.'') v) = float_cleaned v"
  by (simp add: float_cleaned_def replace_space_comma [simplified] replace_comma_idem [simplified])

lemma set_strip: "set (strip s) \<subseteq> set s"
proof
  fix x assume "x \<in> set (strip s)"
  then have "x \<in> set (dropWhile is_space (rev (dropWhile is_space s)))"
    by (simp add: strip_def)
  then have "x \<in> set (rev (dropWhile is_space s))"
    by (rule set_dropWhileD)
  then show "x \<in> set s"
    by (auto dest: set_dropWhileD)
qed

lemma set_replace_Nil: "set (replace old [] s) \<subseteq> set s"
  by (induction s) (auto simp: replace_def)

lemma float_cleaned_no_comma: "0x2C \<notin> set (float_cleaned v)"
proof -
  have a: "0x2C \<notin> set (replace 0x2C (lit ''.'') s)" for s
    by (induction s) (auto simp: replace_def lit_simps)
  show ?thesis
    unfolding float_cleaned_def using a set_replace_Nil set_strip by blast
qed

subsection \<open>A character outside the numeric syntax\<close>

lemma in_set_dropWhile: "x \<in> set xs \<Longrightarrow> \<not> P x \<Longrightarrow> x \<in> set (dropWhile P xs)"
  by (induction xs) auto

lemma in_set_strip: "c \<in> set s \<Longrightarrow> \<not> is_space c \<Longrightarrow> c \<in> set (strip s)"
  by (simp add: strip_def in_set_dropWhile)

lemma c_isspace_is_space: "c_isspace c \<Longrightarrow> is_space c"
  by (auto simp: c_isspace_def is_space_def)

lemma in_set_replace: "c \<in> set s \<Longrightarrow> c \<noteq> old \<Longrightarrow> c \<in> set (replace old new s)"
  by (induction s) (auto simp: replace_def)

lemma space_chars: "is_space 0x20" "is_space 0xA0" "is_space 0x202F"
  by (simp_all add: is_space_def)

lemma in_set_float_cleaned:
  assumes "c \<in> set v" "\<not> is_space c" "c \<noteq> 0x2C"
  shows "c \<in> set (float_cleaned v)"
proof -
  have "c \<noteq> 0x20" "c \<noteq> 0xA0" "c \<noteq> 0x202F"
    using assms(2) space_chars by auto
  then show ?thesis
    unfolding float_cleaned_def using assms
    by (intro in_set_strip in_set_replace) auto
qed

lemma in_set_int_cleaned:
  assumes "c \<in> set v" "\<not> is_space c"
  shows "c \<in> set (int_cleaned v)"
proof -
  have "c \<noteq> 0x20" "c \<noteq> 0xA0" "c \<noteq> 0x202F"
    using assms(2) space_chars by auto
  then show ?thesis
    unfolding int_cleaned_def using assms
    by (intro in_set_strip in_set_replace) auto
qed

text \<open>
  What the rewriting to ASCII leaves of a code point that is no white space and no
  decimal digit: the code point itself, or the question mark.
\<close>

lemma question_mark: "\<not> c_isspace 0x3F" "\<not> float_char 0x3F" "\<not> int_char 0x3F"
  by (simp_all add: c_isspace_def float_char_def int_char_def is_digit_def lower_def lit_simps)

lemma transform_keeps_foreign:
  assumes "c \<in> set s" "\<not> is_space c" "to_decimal c = None"
  shows "c \<in> set (transform_decimal_and_space s) \<or> 0x3F \<in> set (transform_decimal_and_space s)"
  using assms(1)
proof (induction s)
  case Nil
  then show ?case by simp
next
  case (Cons x xs)
  show ?case
  proof (cases "c = x")
    case True
    with assms(2,3) show ?thesis by simp
  next
    case False
    with Cons have "c \<in> set (transform_decimal_and_space xs)
        \<or> 0x3F \<in> set (transform_decimal_and_space xs)"
      by simp
    then show ?thesis
      by (auto split: option.splits)
  qed
qed

lemma to_ascii_keeps_foreign:
  assumes "c \<in> set s" "\<not> is_space c" "to_decimal c = None"
  shows "c \<in> set (to_ascii s) \<or> 0x3F \<in> set (to_ascii s)"
  using transform_keeps_foreign [OF assms] assms(1) by (simp add: to_ascii_def)

lemma without_underscores_set:
  "without_underscores s = Inr t \<Longrightarrow> c \<in> set s \<Longrightarrow> c = 0x5F \<or> c \<in> set t"
  by (auto simp: without_underscores_def split: if_splits)

lemma split_sign_set:
  "split_sign s = (neg, r) \<Longrightarrow> c \<in> set s \<Longrightarrow> c = 0x2D \<or> c = 0x2B \<or> c \<in> set r"
  by (auto simp: split_sign_def split: list.splits if_splits)

lemma parse_exponent_set:
  assumes "parse_exponent s = Inr e" "c \<in> set s"
  shows "is_digit c \<or> c \<in> set (lit ''+-eE'')"
proof (cases s)
  case Nil
  with assms show ?thesis by simp
next
  case (Cons x xs)
  obtain neg ds where sp: "split_sign xs = (neg, ds)" by (cases "split_sign xs")
  from assms(1) Cons sp have x: "x = 0x65 \<or> x = 0x45" and ds: "list_all is_digit ds"
    by (auto simp: parse_exponent_def split: if_splits)
  from assms(2) Cons have "c = x \<or> c \<in> set xs" by auto
  then show ?thesis
  proof
    assume "c = x"
    with x show ?thesis by auto
  next
    assume "c \<in> set xs"
    from split_sign_set[OF sp this] ds show ?thesis
      by (auto simp: list_all_iff)
  qed
qed

lemma parse_decimal_set:
  assumes "parse_decimal neg s = Inr q" "c \<in> set s"
  shows "is_digit c \<or> c \<in> set (lit ''+-.eE'')"
proof -
  define r1 where "r1 = dropWhile is_digit s"
  have s: "s = takeWhile is_digit s @ r1"
    by (simp add: r1_def)
  have "c \<in> set (takeWhile is_digit s) \<or> c \<in> set r1"
    using assms(2) by (subst (asm) s) auto
  then show ?thesis
  proof
    assume "c \<in> set (takeWhile is_digit s)"
    then show ?thesis by (auto dest: set_takeWhileD)
  next
    assume c1: "c \<in> set r1"
    show ?thesis
    proof (cases "r1 \<noteq> [] \<and> hd r1 = 0x2E")
      case True
      define r2 where "r2 = dropWhile is_digit (tl r1)"
      have t: "tl r1 = takeWhile is_digit (tl r1) @ r2"
        by (simp add: r2_def)
      from assms(1) True obtain e where e: "parse_exponent r2 = Inr e"
        by (auto simp: parse_decimal_def Let_def r1_def r2_def split: if_splits sum.splits)
      from True c1 have "c = 0x2E \<or> c \<in> set (tl r1)"
        by (cases r1) auto
      then show ?thesis
      proof
        assume "c = 0x2E"
        then show ?thesis by simp
      next
        assume "c \<in> set (tl r1)"
        then have "c \<in> set (takeWhile is_digit (tl r1)) \<or> c \<in> set r2"
          by (subst (asm) t) auto
        then show ?thesis
          using parse_exponent_set[OF e] by (auto dest: set_takeWhileD)
      qed
    next
      case False
      from assms(1) False obtain e where e: "parse_exponent r1 = Inr e"
        by (auto simp: parse_decimal_def Let_def r1_def split: if_splits sum.splits)
      from parse_exponent_set[OF e c1] show ?thesis by auto
    qed
  qed
qed

lemma in_set_c_strip:
  assumes "c \<in> set s" "\<not> c_isspace c"
  shows "c \<in> set (rev (dropWhile c_isspace (rev (dropWhile c_isspace s))))"
proof -
  have "c \<in> set (rev (dropWhile c_isspace s))"
    using assms by (simp add: in_set_dropWhile)
  then show ?thesis
    using assms(2) by (simp add: in_set_dropWhile)
qed

lemma float_from_string_inner_chars:
  assumes "float_from_string_inner t = Inr x" "c \<in> set t" "\<not> c_isspace c"
  shows "float_char c"
proof -
  define u where "u = rev (dropWhile c_isspace (rev (dropWhile c_isspace t)))"
  obtain neg r where sp: "split_sign u = (neg, r)" by (cases "split_sign u")
  have "c \<in> set u"
    unfolding u_def using assms(2,3) by (rule in_set_c_strip)
  from split_sign_set[OF sp this] have "c = 0x2D \<or> c = 0x2B \<or> c \<in> set r" .
  moreover have "float_char c" if cr: "c \<in> set r"
  proof (cases "map lower r = lit ''inf'' \<or> map lower r = lit ''infinity''
      \<or> map lower r = lit ''nan''")
    case True
    have "lower c \<in> set (map lower r)" using cr by simp
    with True have "lower c \<in> set (lit ''infatyn'')" by auto
    then show ?thesis by (simp add: float_char_def)
  next
    case False
    with assms(1) sp obtain q where "parse_decimal neg r = Inr q"
      by (auto simp: float_from_string_inner_def Let_def u_def split: if_splits)
    from parse_decimal_set[OF this cr] show ?thesis
      by (auto simp: float_char_def)
  qed
  ultimately show ?thesis by (auto simp: float_char_def)
qed

lemma py_float_chars:
  assumes "py_float s = Inr x" "c \<in> set (to_ascii s)" "\<not> c_isspace c"
  shows "float_char c"
proof -
  from assms(1) obtain t where t: "without_underscores (to_ascii s) = Inr t"
    and f: "float_from_string_inner t = Inr x"
    by (auto simp: py_float_def split: sum.splits)
  from without_underscores_set[OF t assms(2)] have "c = 0x5F \<or> c \<in> set t" .
  then show ?thesis
  proof
    assume "c = 0x5F"
    then show ?thesis by (simp add: float_char_def)
  next
    assume "c \<in> set t"
    from float_from_string_inner_chars[OF f this assms(3)] show ?thesis .
  qed
qed

lemma py_int_chars:
  assumes "py_int s = Inr x" "c \<in> set (to_ascii s)" "\<not> c_isspace c"
  shows "int_char c"
proof -
  define a where "a = dropWhile c_isspace (to_ascii s)"
  obtain neg r where sp: "split_sign a = (neg, r)" by (cases "split_sign a")
  define body where "body = takeWhile (\<lambda>c. is_digit c \<or> c = 0x5F) r"
  define rest where "rest = dropWhile (\<lambda>c. is_digit c \<or> c = 0x5F) r"
  have r: "r = body @ rest" by (simp add: body_def rest_def)
  from assms(1) sp have rest: "dropWhile c_isspace rest = []"
    by (auto simp: py_int_def Let_def a_def rest_def split: if_splits)
  have "c \<in> set a"
    unfolding a_def using assms(2,3) by (simp add: in_set_dropWhile)
  from split_sign_set[OF sp this] have "c = 0x2D \<or> c = 0x2B \<or> c \<in> set r" .
  moreover have "int_char c" if "c \<in> set r"
  proof -
    from that r have "c \<in> set body \<or> c \<in> set rest" by auto
    then show ?thesis
    proof
      assume "c \<in> set body"
      then have "is_digit c \<or> c = 0x5F"
        unfolding body_def by (auto dest: set_takeWhileD)
      then show ?thesis by (auto simp: int_char_def)
    next
      assume "c \<in> set rest"
      with assms(3) have "c \<in> set (dropWhile c_isspace rest)"
        by (simp add: in_set_dropWhile)
      then have False
        unfolding rest by simp
      then show ?thesis ..
    qed
  qed
  ultimately show ?thesis by (auto simp: int_char_def)
qed

lemma parse_float_foreign_char:
  assumes "c \<in> set v" "\<not> is_space c" "to_decimal c = None" "c \<noteq> 0x2C" "\<not> float_char c"
  shows "parse_float v = Inr None"
proof (cases "py_float (float_cleaned v)")
  case (Inl e)
  then show ?thesis by (rule parse_float_rejected)
next
  case (Inr x)
  have "c \<in> set (float_cleaned v)"
    using assms(1,2,4) by (rule in_set_float_cleaned)
  from to_ascii_keeps_foreign[OF this assms(2,3)]
  have "c \<in> set (to_ascii (float_cleaned v)) \<or> 0x3F \<in> set (to_ascii (float_cleaned v))" .
  then show ?thesis
  proof
    assume "c \<in> set (to_ascii (float_cleaned v))"
    from py_float_chars[OF Inr this] assms(2,5) c_isspace_is_space show ?thesis by blast
  next
    assume "0x3F \<in> set (to_ascii (float_cleaned v))"
    from py_float_chars[OF Inr this] question_mark show ?thesis by blast
  qed
qed

lemma parse_int_foreign_char:
  assumes "c \<in> set v" "\<not> is_space c" "to_decimal c = None" "\<not> int_char c"
  shows "parse_int v = Inr 0"
proof (cases "py_int (int_cleaned v)")
  case (Inl e)
  then show ?thesis by (rule parse_int_rejected)
next
  case (Inr x)
  have "c \<in> set (int_cleaned v)"
    using assms(1,2) by (rule in_set_int_cleaned)
  from to_ascii_keeps_foreign[OF this assms(2,3)]
  have "c \<in> set (to_ascii (int_cleaned v)) \<or> 0x3F \<in> set (to_ascii (int_cleaned v))" .
  then show ?thesis
  proof
    assume "c \<in> set (to_ascii (int_cleaned v))"
    from py_int_chars[OF Inr this] assms(2,4) c_isspace_is_space show ?thesis by blast
  next
    assume "0x3F \<in> set (to_ascii (int_cleaned v))"
    from py_int_chars[OF Inr this] question_mark show ?thesis by blast
  qed
qed

section \<open>Properties of parse_actions\<close>

lemma parse_variation_total: "\<exists>r. parse_variation t = Inr r"
proof (cases "parse_variation_body t")
  case (Inl e)
  then have "e = ValueError"
    by (auto simp: parse_variation_body_def Let_def split: if_splits sum.splits option.splits
        dest: py_float_error)
  with Inl show ?thesis by (simp add: parse_variation_def)
next
  case (Inr r)
  then show ?thesis by (simp add: parse_variation_def)
qed

lemma row_body_total: "\<exists>r. row_body cols = Inr r"
proof -
  obtain v where v: "parse_int (get_text (cols ! 2)) = Inr v"
    using parse_int_total by blast
  obtain a where a: "parse_float (get_text (cols ! 3)) = Inr a"
    using parse_float_total by blast
  obtain b where b: "parse_float (get_text (cols ! 4)) = Inr b"
    using parse_float_total by blast
  obtain c where c: "parse_float (get_text (cols ! 5)) = Inr c"
    using parse_float_total by blast
  obtain d where d: "parse_variation (cols ! 6) = Inr d"
    using parse_variation_total by blast
  show ?thesis
    by (simp add: row_body_def Let_def and_then_def v a b c d)
qed

lemma parse_row_short:
  "length (bs_find_all (is_tag (lit ''td'')) row) < 7 \<Longrightarrow> parse_row row = None"
  by (simp add: parse_row_def Let_def)

lemma parse_row_empty_symbol:
  "get_text (bs_find_all (is_tag (lit ''td'')) row ! 0) = [] \<Longrightarrow> parse_row row = None"
  by (simp add: parse_row_def row_body_def Let_def)

lemma parse_row_symbol:
  assumes "parse_row row = Some a"
  shows "symbole a = get_text (bs_find_all (is_tag (lit ''td'')) row ! 0)
         \<and> nom a = get_text (bs_find_all (is_tag (lit ''td'')) row ! 1)
         \<and> symbole a \<noteq> [] \<and> 7 \<le> length (bs_find_all (is_tag (lit ''td'')) row)"
  using assms
  by (auto simp: parse_row_def row_body_def Let_def and_then_def
      split: if_splits sum.splits)

lemma parse_row_well_formed:
  assumes "7 \<le> length (bs_find_all (is_tag (lit ''td'')) row)"
    and "get_text (bs_find_all (is_tag (lit ''td'')) row ! 0) \<noteq> []"
  shows "\<exists>a. parse_row row = Some a"
proof -
  define cols where "cols = bs_find_all (is_tag (lit ''td'')) row"
  obtain v where v: "parse_int (get_text (cols ! 2)) = Inr v"
    using parse_int_total by blast
  obtain a where a: "parse_float (get_text (cols ! 3)) = Inr a"
    using parse_float_total by blast
  obtain b where b: "parse_float (get_text (cols ! 4)) = Inr b"
    using parse_float_total by blast
  obtain c where c: "parse_float (get_text (cols ! 5)) = Inr c"
    using parse_float_total by blast
  obtain d where d: "parse_variation (cols ! 6) = Inr d"
    using parse_variation_total by blast
  show ?thesis
    using assms
    by (simp add: parse_row_def row_body_def Let_def and_then_def
        cols_def [symmetric, simplified] v a b c d)
qed

lemma parse_actions_total: "\<exists>qs. parse_actions html_parser html = Inr qs"
  by (cases "parse_actions_body html_parser html") (simp_all add: parse_actions_def)

lemma parse_actions_parser_error:
  "html_parser html = Inl e \<Longrightarrow> parse_actions html_parser html = Inr []"
  by (simp add: parse_actions_def parse_actions_body_def)

lemma parse_actions_rows:
  "html_parser html = Inr soup \<Longrightarrow>
   parse_actions html_parser html =
     Inr (case data_rows soup of None \<Rightarrow> [] | Some rows \<Rightarrow> List.map_filter parse_row rows)"
  by (simp add: parse_actions_def parse_actions_body_def List.map_filter_simps split: option.splits)

lemma map_filter_append:
  "List.map_filter f (xs @ ys) = List.map_filter f xs @ List.map_filter f ys"
  by (simp add: List.map_filter_def)

lemma map_filter_skip:
  "f x = None \<Longrightarrow> List.map_filter f (xs @ x # ys) = List.map_filter f (xs @ ys)"
  by (simp add: List.map_filter_def)

subsection \<open>A document without a table\<close>

lemma descendants_trans:
  "m \<in> set (descendants n) \<Longrightarrow> x \<in> set (descendants m) \<Longrightarrow> x \<in> set (descendants n)"
proof (induction n arbitrary: m)
  case (Tag name ident classes children)
  from Tag.prems(1) obtain c where c: "c \<in> set children" "m = c \<or> m \<in> set (descendants c)"
    by auto
  from c(2) have "x \<in> set (descendants c)"
  proof
    assume "m = c"
    with Tag.prems(2) show ?thesis by simp
  next
    assume "m \<in> set (descendants c)"
    from Tag.IH[OF c(1) this Tag.prems(2)] show ?thesis .
  qed
  with c(1) show ?case by auto
next
  case (NavigableString s)
  then show ?case by simp
qed

lemma bs_find_Some: "bs_find p n = Some x \<Longrightarrow> x \<in> set (descendants n) \<and> p x"
proof -
  assume a: "bs_find p n = Some x"
  then obtain xs where "filter p (descendants n) = x # xs"
    by (auto simp: bs_find_def bs_find_all_def split: list.splits)
  then have "x \<in> set (filter p (descendants n))" by simp
  then show ?thesis by simp
qed

lemma bs_find_None: "bs_find p n = None \<longleftrightarrow> (\<forall>x \<in> set (descendants n). \<not> p x)"
proof -
  have "bs_find p n = None \<longleftrightarrow> filter p (descendants n) = []"
    by (simp add: bs_find_def bs_find_all_def split: list.splits)
  then show ?thesis
    by (simp add: filter_empty_conv)
qed

lemma data_rows_no_table:
  assumes "bs_find_all (is_tag (lit ''table'')) soup = []"
  shows "data_rows soup = None"
proof -
  have no: "\<forall>x \<in> set (descendants soup). \<not> is_tag (lit ''table'') x"
    using assms by (simp add: bs_find_all_def filter_empty_conv)
  define main_section where "main_section =
    (case bs_find (\<lambda>n. is_tag (lit ''section'') n \<and> has_id (lit ''block-system-main'') n) soup of
       None \<Rightarrow> soup | Some s \<Rightarrow> s)"
  have sub: "set (descendants main_section) \<subseteq> set (descendants soup)"
  proof (cases "bs_find (\<lambda>n. is_tag (lit ''section'') n \<and> has_id (lit ''block-system-main'') n) soup")
    case None
    then show ?thesis by (simp add: main_section_def)
  next
    case (Some s)
    then have "s \<in> set (descendants soup)" by (auto dest: bs_find_Some)
    then show ?thesis
      using Some descendants_trans by (auto simp: main_section_def)
  qed
  have n1: "bs_find (\<lambda>n. is_tag (lit ''table'') n \<and> has_class [lit ''table-striped''] n) main_section = None"
    using no sub by (auto simp: bs_find_None)
  have n2: "bs_find (is_tag (lit ''table'')) main_section = None"
    using no sub by (auto simp: bs_find_None)
  show ?thesis
    unfolding data_rows_def Let_def main_section_def [symmetric] n1 n2 by simp
qed


subsection \<open>The example page\<close>

lemmas dom_defs =
  bs_find_all_def bs_find_def get_text_def td_def parse_row_def row_body_def and_then_def
  parse_variation_def parse_variation_body_def

lemma get_text_td: "get_text (td s) = strip s"
  by (simp add: get_text_def td_def)

lemma parse_row_good_row: "parse_row good_row = Some abcd"
  by (simp add: good_row_def abcd_def dom_defs number_defs float_defs)

lemma parse_row_short_row: "parse_row short_row = None"
  by (simp add: parse_row_def short_row_def bs_find_all_def td_def)

lemma parse_row_lowercase_row:
  "map_option symbole (parse_row lowercase_row) = Some (lit ''abcd'')"
  by (simp add: lowercase_row_def dom_defs number_defs float_defs)

lemma parse_row_blank_row: "parse_row blank_row = None"
  by (simp add: blank_row_def dom_defs number_defs)

lemma data_rows_page:
  "data_rows (page_of [good_row, short_row]) = Some [good_row, short_row]"
  by (simp add: data_rows_def page_of_def bs_find_def bs_find_all_def good_row_def
      short_row_def td_def)

lemma parse_actions_page:
  "parse_actions (\<lambda>html. Inr (page_of [good_row, short_row])) html = Inr [abcd]"
  by (simp add: parse_actions_rows data_rows_page List.map_filter_simps parse_row_good_row
      parse_row_short_row)

section \<open>The numeric normalizer\<close>

lemma py_float_Nil: "py_float [] = Inl ValueError"
  by (simp add: py_float_def to_ascii_def without_underscores_def float_from_string_inner_def
      split_sign_def parse_decimal_def)

lemma parse_float_cases:
  "parse_float v =
     (if strip v \<in> {lit ''-'', lit ''0'', lit ''''} then Inr None
      else case py_float (float_cleaned v) of
             Inl e \<Rightarrow> Inr None
           | Inr x \<Rightarrow> Inr (Some x))"
proof (cases "strip v \<in> {lit ''-'', lit ''0'', lit ''''}")
  case True
  then show ?thesis by (simp only: parse_float_placeholder if_True)
next
  case False
  show ?thesis
  proof (cases "py_float (float_cleaned v)")
    case (Inl e)
    with False parse_float_rejected [OF Inl] show ?thesis by simp
  next
    case (Inr x)
    with False parse_float_accepted [OF False Inr] show ?thesis by simp
  qed
qed

lemma parse_int_cases:
  "parse_int v =
     (if strip v \<in> {lit ''-'', lit ''0'', lit ''''} then Inr 0
      else case py_int (int_cleaned v) of
             Inl e \<Rightarrow> Inr 0
           | Inr n \<Rightarrow> Inr n)"
proof (cases "strip v \<in> {lit ''-'', lit ''0'', lit ''''}")
  case True
  then show ?thesis by (simp only: parse_int_placeholder if_True)
next
  case False
  show ?thesis
  proof (cases "py_int (int_cleaned v)")
    case (Inl e)
    with False parse_int_rejected [OF Inl] show ?thesis by simp
  next
    case (Inr n)
    with False parse_int_accepted [OF False Inr] show ?thesis by simp
  qed
qed

lemma parse_variation_td:
  "parse_variation (td v) =
     (if strip v \<in> {lit ''-'', lit ''''} then Inr None
      else case py_float (float_cleaned (strip v)) of
             Inl e \<Rightarrow> Inr None
           | Inr x \<Rightarrow> Inr (Some x))"
proof -
  have f: "bs_find (\<lambda>n. is_tag a n \<and> q n) (td v) = None" for a q
    by (simp add: bs_find_def bs_find_all_def td_def)
  have b: "parse_variation_body (td v) =
     (if strip v \<in> {lit ''-'', lit ''''} then Inr None
      else if float_cleaned (strip v) = [] then Inr None
      else case py_float (float_cleaned (strip v)) of
             Inl e \<Rightarrow> Inl e
           | Inr x \<Rightarrow> Inr (Some x))"
    by (auto simp: parse_variation_body_def f get_text_td)
  show ?thesis
  proof (cases "py_float (float_cleaned (strip v))")
    case (Inl e)
    then have "e = ValueError" by (rule py_float_error)
    with Inl show ?thesis by (simp add: parse_variation_def b)
  next
    case (Inr x)
    then have "float_cleaned (strip v) \<noteq> []" by (auto simp: py_float_Nil)
    with Inr show ?thesis by (simp add: parse_variation_def b)
  qed
qed

lemma round_binary64_example:
  "round_binary64 False 123456 100 = Finite (2714826150374277 / 2 ^ 41)"
  by (simp add: float_defs)

lemma parse_float_example:
  "parse_float (lit ''1 234,56'') = Inr (Some (round_binary64 False 123456 100))"
  by (simp add: number_defs)

text \<open>
  C6 (as amended): for every raw cell string \<open>v\<close>, parse_float, parse_int and
  parse_variation return a value and never raise. For the three price fields
  (parse_float) the empty string, a bare dash and the placeholder \<open>0\<close>, with white space
  around them or not, give None, and for the volume (parse_int) they give 0; every other
  cell gives what \<open>float\<close> (or \<open>int\<close>) makes of the cleaned text, and None (or 0) when
  \<open>float\<close> (or \<open>int\<close>) rejects it. For the variation field (parse_variation, here on a
  cell that holds just the string) only the empty string and the bare dash are
  placeholders. The comma is replaced by the point before parsing (no comma reaches
  \<open>float\<close>, and a cell written with commas is cleaned to the same text as the cell
  written with points), so that \<open>1 234,56\<close> parses to the float 1234.56. In particular
  a cell holding a character that is neither white space, nor a decimal digit, nor the
  comma (for the decimal fields), nor a character of a numeric literal, gives None
  (decimal) or 0 (volume).
\<close>

theorem numeric_normalizer:
  "(\<exists>r. parse_float v = Inr r) \<and> (\<exists>n. parse_int v = Inr n)
   \<and> (\<exists>r. parse_variation cell = Inr r)
   \<and> parse_float v =
       (if strip v \<in> {lit ''-'', lit ''0'', lit ''''} then Inr None
        else case py_float (float_cleaned v) of
               Inl e \<Rightarrow> Inr None
             | Inr x \<Rightarrow> Inr (Some x))
   \<and> parse_int v =
       (if strip v \<in> {lit ''-'', lit ''0'', lit ''''} then Inr 0
        else case py_int (int_cleaned v) of
               Inl e \<Rightarrow> Inr 0
             | Inr n \<Rightarrow> Inr n)
   \<and> parse_variation (td v) =
       (if strip v \<in> {lit ''-'', lit ''''} then Inr None
        else case py_float (float_cleaned (strip v)) of
               Inl e \<Rightarrow> Inr None
             | Inr x \<Rightarrow> Inr (Some x))
   \<and> 0x2C \<notin> set (float_cleaned v)
   \<and> float_cleaned (replace 0x2C (lit ''.'') v) = float_cleaned v
   \<and> parse_float (lit ''1 234,56'') = Inr (Some (round_binary64 False 123456 100))
   \<and> round_binary64 False 123456 100 = Finite (2714826150374277 / 2 ^ 41)
   \<and> (c \<in> set v \<and> \<not> is_space c \<and> to_decimal c = None \<and> c \<noteq> 0x2C \<and> \<not> float_char c
        \<longrightarrow> parse_float v = Inr None)
   \<and> (c \<in> set v \<and> \<not> is_space c \<and> to_decimal c = None \<and> \<not> int_char c
        \<longrightarrow> parse_int v = Inr 0)"
proof -
  have f: "c \<in> set v \<and> \<not> is_space c \<and> to_decimal c = None \<and> c \<noteq> 0x2C \<and> \<not> float_char c
        \<longrightarrow> parse_float v = Inr None"
    using parse_float_foreign_char by blast
  have i: "c \<in> set v \<and> \<not> is_space c \<and> to_decimal c = None \<and> \<not> int_char c
        \<longrightarrow> parse_int v = Inr 0"
    using parse_int_foreign_char by blast
  show ?thesis
    using parse_float_total [of v] parse_int_total [of v] parse_variation_total [of cell]
      parse_float_cases [of v] parse_int_cases [of v] parse_variation_td [of v]
      float_cleaned_no_comma [of v] float_cleaned_comma [of v]
      parse_float_example round_binary64_example f i
    by (intro conjI)
qed

theorem numeric_normalizer_witness:
  "0x62 \<in> set (lit ''12bc'') \<and> \<not> is_space 0x62 \<and> to_decimal 0x62 = None
   \<and> 0x62 \<noteq> (0x2C :: nat) \<and> \<not> float_char 0x62 \<and> \<not> int_char 0x62
   \<and> parse_float (lit ''12bc'') = Inr None \<and> parse_int (lit ''12bc'') = Inr 0"
proof -
  have h: "0x62 \<in> set (lit ''12bc'')" "\<not> is_space 0x62" "to_decimal 0x62 = None"
    "0x62 \<noteq> (0x2C :: nat)" "\<not> float_char 0x62" "\<not> int_char 0x62"
    by (simp_all add: is_space_def to_decimal_def decimal_zeros_def float_char_def
        int_char_def is_digit_def lower_def)
  note n = numeric_normalizer [of "lit ''12bc''" _ "0x62"]
  have a: "parse_float (lit ''12bc'') = Inr None"
    using h n [THEN conjunct2, THEN conjunct2, THEN conjunct2, THEN conjunct2, THEN conjunct2,
        THEN conjunct2, THEN conjunct2, THEN conjunct2, THEN conjunct2, THEN conjunct2,
        THEN conjunct1]
    by blast
  have b: "parse_int (lit ''12bc'') = Inr 0"
    using h n [THEN conjunct2, THEN conjunct2, THEN conjunct2, THEN conjunct2, THEN conjunct2,
        THEN conjunct2, THEN conjunct2, THEN conjunct2, THEN conjunct2, THEN conjunct2,
        THEN conjunct2]
    by blast
  show ?thesis
    using h a b by (intro conjI)
qed

theorem numeric_normalizer_counterexample:
  "parse_float (lit ''nan'') = Inr (Some NaN)
   \<and> parse_float (lit ''-inf'') = Inr (Some (Infinite True))
   \<and> parse_variation (td (lit ''0'')) = Inr (Some (Finite 0))"
  by (simp add: number_defs dom_defs round_binary64_def)

section \<open>parse_actions never raises\<close>

text \<open>
  C7: parse_actions returns a list for every markup, whatever the parser does with it,
  and never raises: when the parser raises, the result is the empty list; otherwise
  the result holds, in order, the dictionaries of the rows of the table that parse,
  and it is empty when the document has no table (or the table no rows). A row with
  fewer than 7 cells is skipped, a row with an empty symbol is skipped, and a skipped
  row changes nothing of what the rows before and after it give.
\<close>

theorem parse_actions_never_raises:
  "(\<exists>qs. parse_actions html_parser html = Inr qs)
   \<and> ((\<exists>e. html_parser html = Inl e) \<longrightarrow> parse_actions html_parser html = Inr [])
   \<and> (html_parser html = Inr soup \<longrightarrow>
        parse_actions html_parser html =
          Inr (case data_rows soup of
                 None \<Rightarrow> []
               | Some rows \<Rightarrow> List.map_filter parse_row rows))
   \<and> (bs_find_all (is_tag (lit ''table'')) soup = [] \<longrightarrow> data_rows soup = None)
   \<and> (length (bs_find_all (is_tag (lit ''td'')) row) < 7 \<longrightarrow> parse_row row = None)
   \<and> (get_text (bs_find_all (is_tag (lit ''td'')) row ! 0) = [] \<longrightarrow> parse_row row = None)
   \<and> (parse_row row = None \<longrightarrow>
        List.map_filter parse_row (rows_before @ row # rows_after)
          = List.map_filter parse_row (rows_before @ rows_after))"
proof -
  have p2: "(\<exists>e. html_parser html = Inl e) \<longrightarrow> parse_actions html_parser html = Inr []"
    by (auto simp: parse_actions_parser_error)
  have p3: "html_parser html = Inr soup \<longrightarrow>
        parse_actions html_parser html =
          Inr (case data_rows soup of
                 None \<Rightarrow> []
               | Some rows \<Rightarrow> List.map_filter parse_row rows)"
    by (simp add: parse_actions_rows)
  have p4: "bs_find_all (is_tag (lit ''table'')) soup = [] \<longrightarrow> data_rows soup = None"
    by (simp add: data_rows_no_table)
  have p5: "length (bs_find_all (is_tag (lit ''td'')) row) < 7 \<longrightarrow> parse_row row = None"
    by (simp add: parse_row_short)
  have p6: "get_text (bs_find_all (is_tag (lit ''td'')) row ! 0) = [] \<longrightarrow> parse_row row = None"
    by (simp add: parse_row_empty_symbol)
  have p7: "parse_row row = None \<longrightarrow>
        List.map_filter parse_row (rows_before @ row # rows_after)
          = List.map_filter parse_row (rows_before @ rows_after)"
    by (simp add: map_filter_skip)
  show ?thesis
    using parse_actions_total [of html_parser html] p2 p3 p4 p5 p6 p7
    by (intro conjI)
qed

theorem parse_actions_never_raises_witness:
  "parse_actions (\<lambda>html. Inl ParserError) [] = Inr []
   \<and> parse_actions (\<lambda>html. Inr (page_of [good_row, short_row])) [] = Inr [abcd]
   \<and> bs_find_all (is_tag (lit ''table'')) (Tag (lit ''[document]'') None [] []) = []
   \<and> data_rows (Tag (lit ''[document]'') None [] []) = None
   \<and> length (bs_find_all (is_tag (lit ''td'')) short_row) < 7
   \<and> parse_row short_row = None
   \<and> get_text (bs_find_all (is_tag (lit ''td'')) blank_row ! 0) = []
   \<and> parse_row blank_row = None
   \<and> List.map_filter parse_row ([good_row] @ short_row # [good_row]) = [abcd, abcd]"
proof -
  note never = parse_actions_never_raises
  have a0: "\<exists>e. (\<lambda>html :: pystr. (Inl ParserError :: py_error + node)) [] = Inl e"
    by simp
  have a: "parse_actions (\<lambda>html. Inl ParserError) [] = Inr []"
    using never [where html_parser = "\<lambda>html. Inl ParserError" and html = "[]",
        THEN conjunct2, THEN conjunct1, THEN mp, OF a0] .
  have b0: "(\<lambda>html :: pystr. (Inr (page_of [good_row, short_row]) :: py_error + node)) []
      = Inr (page_of [good_row, short_row])"
    by simp
  have "parse_actions (\<lambda>html. Inr (page_of [good_row, short_row])) [] =
          Inr (case data_rows (page_of [good_row, short_row]) of
                 None \<Rightarrow> []
               | Some rows \<Rightarrow> List.map_filter parse_row rows)"
    using never [where html_parser = "\<lambda>html. Inr (page_of [good_row, short_row])"
        and html = "[]" and soup = "page_of [good_row, short_row]",
        THEN conjunct2, THEN conjunct2, THEN conjunct1, THEN mp, OF b0] .
  then have b: "parse_actions (\<lambda>html. Inr (page_of [good_row, short_row])) [] = Inr [abcd]"
    by (simp add: data_rows_page List.map_filter_simps parse_row_good_row parse_row_short_row)
  have c1: "bs_find_all (is_tag (lit ''table'')) (Tag (lit ''[document]'') None [] []) = []"
    by (simp add: bs_find_all_def)
  have c: "data_rows (Tag (lit ''[document]'') None [] []) = None"
    using never [where soup = "Tag (lit ''[document]'') None [] []",
        THEN conjunct2, THEN conjunct2, THEN conjunct2, THEN conjunct1, THEN mp, OF c1] .
  have d1: "length (bs_find_all (is_tag (lit ''td'')) short_row) < 7"
    by (simp add: short_row_def bs_find_all_def td_def)
  have d: "parse_row short_row = None"
    using never [where row = short_row,
        THEN conjunct2, THEN conjunct2, THEN conjunct2, THEN conjunct2, THEN conjunct1,
        THEN mp, OF d1] .
  have e1: "get_text (bs_find_all (is_tag (lit ''td'')) blank_row ! 0) = []"
    by (simp add: blank_row_def bs_find_all_def td_def get_text_def strip_def is_space_def)
  have e: "parse_row blank_row = None"
    using never [where row = blank_row,
        THEN conjunct2, THEN conjunct2, THEN conjunct2, THEN conjunct2, THEN conjunct2,
        THEN conjunct1, THEN mp, OF e1] .
  have "List.map_filter parse_row ([good_row] @ short_row # [good_row])
          = List.map_filter parse_row ([good_row] @ [good_row])"
    using never [where row = short_row and rows_before = "[good_row]"
        and rows_after = "[good_row]",
        THEN conjunct2, THEN conjunct2, THEN conjunct2, THEN conjunct2, THEN conjunct2,
        THEN conjunct2, THEN mp, OF d] .
  then have f: "List.map_filter parse_row ([good_row] @ short_row # [good_row]) = [abcd, abcd]"
    by (simp add: List.map_filter_simps parse_row_good_row)
  show ?thesis
    using a b c1 c d1 d e1 e f by (intro conjI)
qed

text \<open>
  C9 (not what the code does): the symbol of a parsed row is the text of the symbol
  cell as it stands (\<open>cols[0].get_text(strip=True)\<close>); nothing upper-cases it. The row
  whose symbol cell reads abcd gives the symbol abcd, not ABCD.
\<close>

theorem parse_row_keeps_case:
  "map_option symbole (parse_row lowercase_row) = Some (lit ''abcd'')
   \<and> lit ''abcd'' \<noteq> lit ''ABCD''"
  using parse_row_lowercase_row by simp

end
